theory Spec2Isabelle
  imports Complex_Main "HOL-Library.Multiset" "HOL-Library.Sublist"
begin

section \<open>Python strings\<close>

text \<open>
  SMGA.py works on Python \<open>str\<close> values.  They are modelled as \<open>string\<close> (a list of
  \<open>char\<close>), read as ASCII text: a character is cased exactly when it is one of the 52
  ASCII letters, and the white space removed by \<open>str.strip()\<close> is the ASCII part of
  what \<open>str.isspace()\<close> accepts (code points 9 to 13 and 28 to 32).
\<close>

definition is_upper :: "char \<Rightarrow> bool" where
  "is_upper c = (let n = (of_char c :: nat) in 65 \<le> n \<and> n \<le> 90)"

definition is_lower :: "char \<Rightarrow> bool" where
  "is_lower c = (let n = (of_char c :: nat) in 97 \<le> n \<and> n \<le> 122)"

definition is_cased :: "char \<Rightarrow> bool" where
  "is_cased c = (is_upper c \<or> is_lower c)"

definition is_space :: "char \<Rightarrow> bool" where
  "is_space c = (let n = (of_char c :: nat) in (9 \<le> n \<and> n \<le> 13) \<or> (28 \<le> n \<and> n \<le> 32))"

definition lower_char :: "char \<Rightarrow> char" where
  "lower_char c = (if is_upper c then char_of (of_char c + (32 :: nat)) else c)"

definition upper_char :: "char \<Rightarrow> char" where
  "upper_char c = (if is_lower c then char_of (of_char c - (32 :: nat)) else c)"

text \<open>\<open>s.lower()\<close>\<close>

definition lower :: "string \<Rightarrow> string" where
  "lower s = map lower_char s"

text \<open>\<open>s.strip()\<close>: leading and trailing white space removed.\<close>

definition strip :: "string \<Rightarrow> string" where
  "strip s = rev (dropWhile is_space (rev (dropWhile is_space s)))"

text \<open>
  \<open>s.title()\<close>: a character that follows a cased character is lower-cased, any other
  character is upper-cased; the flag is whether the previous character was cased.
\<close>

fun title_from :: "bool \<Rightarrow> string \<Rightarrow> string" where
  "title_from previous_is_cased [] = []"
| "title_from previous_is_cased (c # cs) =
     (if previous_is_cased then lower_char c else upper_char c) # title_from (is_cased c) cs"

definition title :: "string \<Rightarrow> string" where
  "title s = title_from False s"

text \<open>
  \<open>s.split(d)\<close> for a one-character separator: the pieces between the separators, in
  order; an empty string gives one empty piece.
\<close>

fun split :: "char \<Rightarrow> string \<Rightarrow> string list" where
  "split d [] = [[]]"
| "split d (c # cs) =
     (if c = d then [] # split d cs
      else (case split d cs of [] \<Rightarrow> [[c]] | p # ps \<Rightarrow> (c # p) # ps))"

text \<open>\<open>k in s\<close> on strings: \<open>k\<close> occurs in \<open>s\<close> as a contiguous piece.\<close>

fun str_in :: "string \<Rightarrow> string \<Rightarrow> bool" where
  "str_in k [] = (k = [])"
| "str_in k (c # cs) = (prefix k (c # cs) \<or> str_in k cs)"

section \<open>The Normalizer: \<open>map_to_simplified_genres\<close>\<close>

text \<open>
  \<open>simplified_keywords\<close> is the dict that \<open>json.load\<close> returned: simplified genre name
  to list of keywords.  \<open>.items()\<close> iterates in insertion order, so the dict is an
  association list in that order.
\<close>

type_synonym taxonomy = "(string \<times> string list) list"

text \<open>
  The inner loop (lines 56 to 60): \<open>matched\<close> starts as \<open>None\<close> and becomes the first
  name one of whose keywords is in \<open>genre_lower\<close>; the \<open>break\<close> ends the scan.
\<close>

fun scan_keywords :: "string \<Rightarrow> taxonomy \<Rightarrow> string option" where
  "scan_keywords genre_lower [] = None"
| "scan_keywords genre_lower ((simplified_genre, keywords) # rest) =
     (if list_ex (\<lambda>keyword. str_in keyword genre_lower) keywords
      then Some simplified_genre
      else scan_keywords genre_lower rest)"

text \<open>\<open>if matched:\<close> is Python truthiness: \<open>None\<close> and the empty string are false.\<close>

fun truthy :: "string option \<Rightarrow> bool" where
  "truthy None = False"
| "truthy (Some s) = (s \<noteq> [])"

text \<open>
  One round of the outer loop (lines 55 to 65): the entry appended to
  \<open>simplified_genres\<close> and the amount added to \<open>unmapped_count\<close>.
\<close>

definition simplify_genre :: "string \<Rightarrow> taxonomy \<Rightarrow> string \<times> nat" where
  "simplify_genre genre simplified_keywords =
     (let genre_lower = strip (lower genre);
          matched = scan_keywords genre_lower simplified_keywords
      in if truthy matched then (the matched, 0) else (title genre, 1))"

fun simplify_loop :: "string list \<Rightarrow> taxonomy \<Rightarrow> string list \<times> nat \<Rightarrow> string list \<times> nat" where
  "simplify_loop [] simplified_keywords acc = acc"
| "simplify_loop (genre # rest) simplified_keywords (simplified_genres, unmapped_count) =
     (let (entry, d) = simplify_genre genre simplified_keywords
      in simplify_loop rest simplified_keywords (simplified_genres @ [entry], unmapped_count + d))"

definition map_to_simplified_genres :: "string list \<Rightarrow> taxonomy \<Rightarrow> string list \<times> nat" where
  "map_to_simplified_genres complex_genres simplified_keywords =
     simplify_loop complex_genres simplified_keywords ([], 0)"

section \<open>The Tag Extractor: \<open>get_genre\<close>\<close>

datatype error =
    FileNotFoundError string | JSONDecodeError | MutagenError | IndexError | TypeError

text \<open>
  A tag value as \<open>get_genre\<close> looks at it: a Python list (of values shown by their
  \<open>str()\<close>), or any other value, shown by its \<open>str()\<close>.
\<close>

datatype tag_value = Text string | Items "string list"

text \<open>
  What \<open>mutagen.File(file_path)\<close> does for a path: it raises, it returns \<open>None\<close> (no
  known format), or it returns a file object whose tags form a dict.
\<close>

datatype opened = Raises error | Nothing | Audio "(string \<times> tag_value) list"

type_synonym mutagen = "string \<Rightarrow> opened"

text \<open>
  \<open>if audio:\<close> asks for the length of the file object, which is its number of tag
  keys: \<open>None\<close> and a file without tags are false.
\<close>

fun audio_truthy :: "opened \<Rightarrow> bool" where
  "audio_truthy (Audio tags) = (tags \<noteq> [])"
| "audio_truthy other = False"

text \<open>Lines 41 to 43: \<open>genre[0]\<close> of a list (IndexError when empty), then \<open>str(genre)\<close>.\<close>

fun first_item :: "tag_value \<Rightarrow> error + string" where
  "first_item (Text s) = Inr s"
| "first_item (Items []) = Inl IndexError"
| "first_item (Items (g # more)) = Inr g"

text \<open>Line 43: \<open>[g.strip().lower() for g in str(genre).split(';')]\<close>\<close>

definition split_genres :: "string \<Rightarrow> string list" where
  "split_genres s = map (\<lambda>g. lower (strip g)) (split (CHR '';'') s)"

text \<open>
  The loop over the tag names (lines 38 to 43); it returns at the first name present,
  and falling out of it reaches \<open>return []\<close>.
\<close>

fun search_tags :: "string list \<Rightarrow> (string \<times> tag_value) list \<Rightarrow> error + string list" where
  "search_tags [] tags = Inr []"
| "search_tags (tag # more) tags =
     (case map_of tags tag of
        None \<Rightarrow> search_tags more tags
      | Some genre \<Rightarrow>
          (case first_item genre of
             Inl e \<Rightarrow> Inl e
           | Inr s \<Rightarrow> Inr (split_genres s)))"


definition tag_names :: "string list" where
  "tag_names = [''genre'', ''GENRE'', ''TCON'']"

text \<open>The body of the \<open>try\<close> (lines 36 to 43), with what it raises as \<open>Inl\<close>.\<close>

definition get_genre_try :: "mutagen \<Rightarrow> string \<Rightarrow> error + string list" where
  "get_genre_try File file_path =
     (case File file_path of
        Raises e \<Rightarrow> Inl e
      | Nothing \<Rightarrow> Inr []
      | Audio tags \<Rightarrow>
          (if audio_truthy (Audio tags) then search_tags tag_names tags else Inr []))"

text \<open>\<open>except Exception: pass\<close>, then \<open>return []\<close>.\<close>

definition get_genre :: "mutagen \<Rightarrow> string \<Rightarrow> string list" where
  "get_genre File file_path =
     (case get_genre_try File file_path of Inl e \<Rightarrow> [] | Inr genres \<Rightarrow> genres)"

section \<open>The Distribution Calculator\<close>

text \<open>
  The values that end up in the list \<open>genres\<close> of \<open>calculate_genre_distribution\<close>:
  strings, and, since line 77 binds \<open>genre_list\<close> to the pair that
  \<open>map_to_simplified_genres\<close> returns and line 78 extends \<open>genres\<close> with that pair,
  a list of strings and an integer.
\<close>

datatype pyval = PyStr string | PyInt int | PyList "string list"

fun hashable :: "pyval \<Rightarrow> bool" where
  "hashable (PyStr s) = True"
| "hashable (PyInt i) = True"
| "hashable (PyList xs) = False"

text \<open>Lines 73 to 78.\<close>

fun collect_genres :: "mutagen \<Rightarrow> string list \<Rightarrow> bool \<Rightarrow> taxonomy \<Rightarrow> pyval list \<Rightarrow> pyval list" where
  "collect_genres File [] use_simple_genres simplified_keywords genres = genres"
| "collect_genres File (file # more) use_simple_genres simplified_keywords genres =
     (let genre_list = get_genre File file
      in if use_simple_genres
         then (let (simplified_genres, unmapped_count) =
                     map_to_simplified_genres genre_list simplified_keywords
               in collect_genres File more use_simple_genres simplified_keywords
                    (genres @ [PyList simplified_genres, PyInt (int unmapped_count)]))
         else collect_genres File more use_simple_genres simplified_keywords
                (genres @ map PyStr genre_list))"

text \<open>
  \<open>Counter(genres)\<close>: a dict from element to number of occurrences, in order of first
  occurrence; counting an unhashable element raises TypeError.
\<close>

type_synonym counter = "(pyval \<times> nat) list"

fun increment :: "pyval \<Rightarrow> counter \<Rightarrow> counter" where
  "increment elem [] = [(elem, 1)]"
| "increment elem ((k, n) # more) =
     (if k = elem then (k, n + 1) # more else (k, n) # increment elem more)"

fun Counter_loop :: "pyval list \<Rightarrow> counter \<Rightarrow> error + counter" where
  "Counter_loop [] c = Inr c"
| "Counter_loop (elem # more) c =
     (if hashable elem then Counter_loop more (increment elem c) else Inl TypeError)"

definition Counter :: "pyval list \<Rightarrow> error + counter" where
  "Counter genres = Counter_loop genres []"

text \<open>
  The percentages are Python floats; they are modelled as exact rationals, so the
  rounding of the float operations is left out.
\<close>

type_synonym percentages = "(pyval \<times> rat) list"

text \<open>Line 86, the dict comprehension.\<close>

definition genre_percentage :: "counter \<Rightarrow> nat \<Rightarrow> percentages" where
  "genre_percentage genre_count total_tracks =
     map (\<lambda>(genre, count). (genre, (of_nat count / of_nat total_tracks) * 100)) genre_count"

text \<open>The two shapes the function returns: three values on line 84, two on line 87.\<close>

datatype returned = Triple counter percentages nat | Pair counter percentages

fun returned_percentage :: "returned \<Rightarrow> percentages" where
  "returned_percentage (Triple c p n) = p"
| "returned_percentage (Pair c p) = p"

text \<open>Lines 80 to 87.\<close>

definition count_genres :: "pyval list \<Rightarrow> error + returned" where
  "count_genres genres =
     (case Counter genres of
        Inl e \<Rightarrow> Inl e
      | Inr genre_count \<Rightarrow>
          (let total_tracks = length genres
           in if total_tracks = 0 then Inr (Triple genre_count [] 0)
              else Inr (Pair genre_count (genre_percentage genre_count total_tracks))))"

definition calculate_genre_distribution ::
    "mutagen \<Rightarrow> string list \<Rightarrow> bool \<Rightarrow> taxonomy \<Rightarrow> error + returned" where
  "calculate_genre_distribution File audio_files use_simple_genres simplified_keywords =
     count_genres (collect_genres File audio_files use_simple_genres simplified_keywords [])"

text \<open>\<open>calculate_overlap\<close>, lines 92 to 97.\<close>

fun overlap_loop :: "mutagen \<Rightarrow> string list \<Rightarrow> nat \<Rightarrow> nat" where
  "overlap_loop File [] overlap_count = overlap_count"
| "overlap_loop File (file # more) overlap_count =
     (let genres = get_genre File file
      in overlap_loop File more (if length genres > 1 then overlap_count + 1 else overlap_count))"

definition calculate_overlap :: "mutagen \<Rightarrow> string list \<Rightarrow> nat" where
  "calculate_overlap File audio_files = overlap_loop File audio_files 0"

text \<open>
  \<open>perform_analysis\<close>, lines 176 to 180: the flattened list of all files' genres, and
  one call of the Normalizer on it when the simple analysis is selected.
\<close>

definition flat_genres :: "mutagen \<Rightarrow> string list \<Rightarrow> string list" where
  "flat_genres File audio_files = concat (map (get_genre File) audio_files)"

definition perform_analysis_genres ::
    "mutagen \<Rightarrow> string list \<Rightarrow> bool \<Rightarrow> taxonomy \<Rightarrow> string list \<times> nat" where
  "perform_analysis_genres File audio_files use_simple_genres simplified_keywords =
     (let genres = flat_genres File audio_files
      in if use_simple_genres then map_to_simplified_genres genres simplified_keywords
         else (genres, 0))"

text \<open>
  Line 185 of \<open>perform_analysis\<close>: the overlap count is taken next to the genres,
  with \<open>use_simple_genres\<close> in scope.
\<close>

definition perform_analysis_overlap ::
    "mutagen \<Rightarrow> string list \<Rightarrow> bool \<Rightarrow> taxonomy \<Rightarrow> (string list \<times> nat) \<times> nat" where
  "perform_analysis_overlap File audio_files use_simple_genres simplified_keywords =
     (let counted = perform_analysis_genres File audio_files use_simple_genres simplified_keywords;
          overlap_count = calculate_overlap File audio_files
      in (counted, overlap_count))"

section \<open>The Discoverer: \<open>get_audio_files\<close>\<close>

text \<open>
  \<open>os.path\<close> on POSIX paths.  \<open>join a b\<close> is \<open>os.path.join(a, b)\<close>; \<open>splitext_ext p\<close>
  is \<open>os.path.splitext(p)[1]\<close>: the part of the last path component from its last dot
  on, where dots at the start of the component do not count, and the empty string when
  there is no such dot.
\<close>

definition join :: "string \<Rightarrow> string \<Rightarrow> string" where
  "join a b =
     (if prefix ''/'' b then b
      else if a = [] \<or> suffix ''/'' a then a @ b
      else a @ ''/'' @ b)"

definition basename :: "string \<Rightarrow> string" where
  "basename p = rev (takeWhile (\<lambda>c. c \<noteq> CHR ''/'') (rev p))"

definition splitext_ext :: "string \<Rightarrow> string" where
  "splitext_ext p =
     (let stem = dropWhile (\<lambda>c. c = CHR ''.'') (basename p)
      in if CHR ''.'' \<in> set stem
         then CHR ''.'' # rev (takeWhile (\<lambda>c. c \<noteq> CHR ''.'') (rev stem))
         else [])"

text \<open>
  A directory as \<open>os.walk\<close> sees it: the names of its files and its subdirectories by
  name, both in the order in which the directory is listed.
\<close>

datatype dir = Dir "string list" "(string \<times> dir) list"

text \<open>
  \<open>os.walk(top)\<close>, top down: the pair (root, files) of the directory itself, then
  those of each subdirectory under the root \<open>os.path.join(top, name)\<close>.  Python's
  \<open>top\<close> is \<open>topdir\<close> here and its \<open>root\<close> is \<open>root_path\<close>.
\<close>

fun os_walk :: "string \<Rightarrow> dir \<Rightarrow> (string \<times> string list) list" where
  "os_walk topdir (Dir files subdirs) =
     (topdir, files) # concat (map (\<lambda>(name, sub). os_walk (join topdir name) sub) subdirs)"

definition audio_extensions :: "string list" where
  "audio_extensions = [''.mp3'', ''.flac'', ''.wav'', ''.aac'', ''.m4a'', ''.ogg'', ''.wma'']"

text \<open>Line 28, the test of one file name.\<close>

definition is_audio :: "string \<Rightarrow> bool" where
  "is_audio file = (lower (splitext_ext file) \<in> set audio_extensions)"

text \<open>Lines 27 to 29, the loop over the files of one directory.\<close>

fun files_loop :: "string \<Rightarrow> string list \<Rightarrow> string list \<Rightarrow> string list" where
  "files_loop root_path [] audio_files = audio_files"
| "files_loop root_path (file # more) audio_files =
     files_loop root_path more
       (if is_audio file then audio_files @ [join root_path file] else audio_files)"

text \<open>Line 26, the loop over what \<open>os.walk\<close> yields.\<close>

fun walk_loop :: "(string \<times> string list) list \<Rightarrow> string list \<Rightarrow> string list" where
  "walk_loop [] audio_files = audio_files"
| "walk_loop ((root_path, files) # more) audio_files =
     walk_loop more (files_loop root_path files audio_files)"

definition get_audio_files :: "string \<Rightarrow> dir \<Rightarrow> string list" where
  "get_audio_files directory tree = walk_loop (os_walk directory tree) []"

text \<open>
  The files under a directory, by recursive traversal:
  \<open>in_tree topdir d root_path file\<close> says that the tree \<open>d\<close> at path \<open>topdir\<close> has a
  directory of path \<open>root_path\<close> (itself, or below it) that lists \<open>file\<close>.
\<close>

inductive in_tree :: "string \<Rightarrow> dir \<Rightarrow> string \<Rightarrow> string \<Rightarrow> bool" where
  here: "file \<in> set files \<Longrightarrow> in_tree topdir (Dir files subdirs) topdir file"
| below: "(name, sub) \<in> set subdirs \<Longrightarrow> in_tree (join topdir name) sub root_path file
          \<Longrightarrow> in_tree topdir (Dir files subdirs) root_path file"

text \<open>
  File and directory names of a POSIX file system are not empty and hold no slash.
\<close>

definition is_name :: "string \<Rightarrow> bool" where
  "is_name n = (n \<noteq> [] \<and> CHR ''/'' \<notin> set n)"

fun names_ok :: "dir \<Rightarrow> bool" where
  "names_ok (Dir files subdirs) =
     (list_all is_name files \<and> list_all (\<lambda>(name, sub). is_name name \<and> names_ok sub) subdirs)"

section \<open>The taxonomy loader and \<open>main\<close>\<close>

text \<open>
  The state of \<open>simplified_genre.json\<close> when the plugin starts: the file does not
  exist, \<open>json.load\<close> raises on its contents, or \<open>json.load\<close> returns a dict.
\<close>

datatype config_file = Absent | Unparsable | Parsed taxonomy

definition not_found_message :: "string \<Rightarrow> string" where
  "not_found_message genre_file_path = ''Simplified genre file not found: '' @ genre_file_path"

definition load_simplified_genres :: "string \<Rightarrow> config_file \<Rightarrow> error + taxonomy" where
  "load_simplified_genres genre_file_path resource =
     (case resource of
        Absent \<Rightarrow> Inl (FileNotFoundError (not_found_message genre_file_path))
      | Unparsable \<Rightarrow> Inl JSONDecodeError
      | Parsed mapping \<Rightarrow> Inr mapping)"

text \<open>
  What \<open>main\<close> does that the host can see: the lines it logs, the dialog it opens, and
  its result, either an exception that leaves \<open>main\<close> (\<open>Inl\<close>) or the returned value,
  where \<open>None\<close> is Python's \<open>None\<close>.  \<open>smga_main_logic\<close> builds the view from the user
  interface; it is a parameter here.
\<close>

datatype event = Info string | Error string | Critical_dialog string

fun is_FileNotFoundError :: "error \<Rightarrow> bool" where
  "is_FileNotFoundError (FileNotFoundError msg) = True"
| "is_FileNotFoundError other = False"

fun str_of :: "error \<Rightarrow> string" where
  "str_of (FileNotFoundError msg) = msg"
| "str_of other = []"

definition main ::
    "(taxonomy \<Rightarrow> event list \<times> (error + 'w option)) \<Rightarrow> string \<Rightarrow> config_file
       \<Rightarrow> event list \<times> (error + 'w option)" where
  "main smga_main_logic genre_file_path resource =
     (let started = [Info ''SMGA Plugin initialized.'']
      in case load_simplified_genres genre_file_path resource of
           Inl e \<Rightarrow>
             (if is_FileNotFoundError e
              then (started @ [Error (str_of e), Critical_dialog (str_of e)], Inr None)
              else (started, Inl e))
         | Inr simplified_keywords \<Rightarrow>
             (let (shown, view) = smga_main_logic simplified_keywords
              in (started @ shown, view)))"

section \<open>The example of the specification\<close>

text \<open>
  The taxonomy \<open>{"rock": ["rock"], "electronic": ["techno", "house"]}\<close>, file A tagged
  "Classic Rock", file B tagged "Deep House", file C without a genre tag; and further
  files: D tagged "Rock; Pop", F of no known format, G with an empty list as genre, and
  every other path unreadable.
\<close>

definition example_taxonomy :: taxonomy where
  "example_taxonomy = [(''rock'', [''rock'']), (''electronic'', [''techno'', ''house''])]"

definition example_library :: mutagen where
  "example_library file_path =
     (if file_path = ''A.mp3'' then Audio [(''genre'', Items [''Classic Rock''])]
      else if file_path = ''B.flac'' then Audio [(''TCON'', Text ''Deep House'')]
      else if file_path = ''C.ogg'' then Audio [(''title'', Items [''Untitled''])]
      else if file_path = ''D.mp3'' then Audio [(''GENRE'', Items [''Rock; Pop''])]
      else if file_path = ''F.txt'' then Nothing
      else if file_path = ''G.mp3'' then Audio [(''genre'', Items [])]
      else Raises MutagenError)"

definition example_tree :: dir where
  "example_tree =
     Dir [''A.MP3'', ''notes.txt'', ''.flac'']
         [(''live'', Dir [''b.set.Flac'', ''cover.jpg''] []), (''x.ogg'', Dir [] [])]"

section \<open>Properties of the string operations\<close>

text \<open>
  \<open>split\<close> cuts at every separator and nowhere else: putting the separator back in
  front of every piece gives the string behind one separator, no piece holds the
  separator, and there is one piece more than separators.
\<close>

lemma split_not_empty: "split d s \<noteq> []"
  by (induction s) (auto split: list.splits)

lemma split_rejoin: "concat (map (\<lambda>p. d # p) (split d s)) = d # s"
  by (induction s) (auto split: list.splits)

lemma split_pieces_have_no_separator: "p \<in> set (split d s) \<Longrightarrow> d \<notin> set p"
  by (induction s arbitrary: p) (auto split: list.splits if_splits)

lemma length_split: "length (split d s) = Suc (count_list s d)"
  by (induction s) (auto split: list.splits simp: split_not_empty)

text \<open>What \<open>strip\<close> returns neither starts nor ends with white space.\<close>

lemma dropWhile_snoc: "\<not> P x \<Longrightarrow> dropWhile P (xs @ [x]) = dropWhile P xs @ [x]"
  by (induction xs) simp_all

lemma strip_Cons:
  "\<not> is_space x \<Longrightarrow> strip (x # ys) = x # rev (dropWhile is_space (rev ys))"
  by (simp add: strip_def dropWhile_snoc)

lemma strip_dropWhile: "strip s = strip (dropWhile is_space s)"
  by (simp add: strip_def)

lemma strip_edges:
  "strip s = [] \<or> (\<not> is_space (hd (strip s)) \<and> \<not> is_space (last (strip s)))"
proof (cases "dropWhile is_space s")
  case Nil
  show ?thesis unfolding strip_def Nil by simp
next
  case (Cons x ys)
  then have x: "\<not> is_space x"
    using hd_dropWhile [of is_space s] by simp
  let ?zs = "dropWhile is_space (rev ys)"
  from Cons x have eq: "strip s = x # rev ?zs"
    using strip_dropWhile [of s] by (simp add: strip_Cons)
  show ?thesis
  proof (cases "?zs = []")
    case True
    with eq x show ?thesis by simp
  next
    case False
    then have "\<not> is_space (hd ?zs)" by (rule hd_dropWhile)
    with False eq x show ?thesis by (simp add: last_rev)
  qed
qed


section \<open>Properties of the Normalizer\<close>

lemma simplify_loop_eq:
  "simplify_loop gs kw (acc, n) =
     (acc @ map (\<lambda>g. fst (simplify_genre g kw)) gs,
      n + sum_list (map (\<lambda>g. snd (simplify_genre g kw)) gs))"
  by (induction gs arbitrary: acc n) (simp_all add: case_prod_beta)

lemma map_to_simplified_genres_eq:
  "map_to_simplified_genres gs kw =
     (map (\<lambda>g. fst (simplify_genre g kw)) gs,
      sum_list (map (\<lambda>g. snd (simplify_genre g kw)) gs))"
  by (simp add: map_to_simplified_genres_def simplify_loop_eq)

text \<open>
  The scan of the taxonomy, in terms of \<^const>\<open>sublist\<close>: it finds no name exactly
  when no keyword of any entry occurs in the string, and it finds \<open>n\<close> exactly when
  \<open>n\<close> is the name of the first entry that has a keyword occurring in the string.
\<close>

lemma str_in_sublist: "str_in k s \<longleftrightarrow> sublist k s"
  by (induction s) (auto simp: sublist_Cons_right)

lemma scan_keywords_None:
  "scan_keywords g kw = None \<longleftrightarrow>
     (\<forall>(name, keywords) \<in> set kw. \<forall>k \<in> set keywords. \<not> sublist k g)"
  by (induction g kw rule: scan_keywords.induct) (auto simp: list_ex_iff str_in_sublist)

lemma scan_keywords_Some:
  "scan_keywords g kw = Some n \<longleftrightarrow>
     (\<exists>before ks after. kw = before @ (n, ks) # after
        \<and> (\<exists>k \<in> set ks. sublist k g)
        \<and> (\<forall>(name', keywords') \<in> set before. \<forall>k \<in> set keywords'. \<not> sublist k g))"
proof (induction g kw rule: scan_keywords.induct)
  case (1 g)
  then show ?case by simp
next
  case (2 g name ks rest)
  show ?case
  proof (cases "list_ex (\<lambda>keyword. str_in keyword g) ks")
    case True
    then have hit: "\<exists>k \<in> set ks. sublist k g"
      by (simp add: list_ex_iff str_in_sublist)
    have "(\<exists>before kws after. (name, ks) # rest = before @ (n, kws) # after
        \<and> (\<exists>k \<in> set kws. sublist k g)
        \<and> (\<forall>(name', keywords') \<in> set before. \<forall>k \<in> set keywords'. \<not> sublist k g)) \<longleftrightarrow> name = n"
    proof
      assume "\<exists>before kws after. (name, ks) # rest = before @ (n, kws) # after
        \<and> (\<exists>k \<in> set kws. sublist k g)
        \<and> (\<forall>(name', keywords') \<in> set before. \<forall>k \<in> set keywords'. \<not> sublist k g)"
      then obtain before kws after where
        eq: "(name, ks) # rest = before @ (n, kws) # after"
        and no: "\<forall>(name', keywords') \<in> set before. \<forall>k \<in> set keywords'. \<not> sublist k g"
        by blast
      show "name = n"
      proof (cases before)
        case Nil
        with eq show ?thesis by simp
      next
        case (Cons b bs)
        with eq have "b = (name, ks)" by simp
        with Cons no hit show ?thesis by auto
      qed
    next
      assume "name = n"
      with hit show "\<exists>before kws after. (name, ks) # rest = before @ (n, kws) # after
        \<and> (\<exists>k \<in> set kws. sublist k g)
        \<and> (\<forall>(name', ks') \<in> set before. \<forall>k \<in> set ks'. \<not> sublist k g)"
        by (intro exI [of _ "[]"] exI [of _ ks] exI [of _ rest]) simp
    qed
    with True show ?thesis by simp
  next
    case False
    then have miss: "\<forall>k \<in> set ks. \<not> sublist k g"
      by (simp add: list_ex_iff str_in_sublist)
    have "(\<exists>before kws after. (name, ks) # rest = before @ (n, kws) # after
        \<and> (\<exists>k \<in> set kws. sublist k g)
        \<and> (\<forall>(name', keywords') \<in> set before. \<forall>k \<in> set keywords'. \<not> sublist k g))
      \<longleftrightarrow> (\<exists>before kws after. rest = before @ (n, kws) # after
        \<and> (\<exists>k \<in> set kws. sublist k g)
        \<and> (\<forall>(name', keywords') \<in> set before. \<forall>k \<in> set keywords'. \<not> sublist k g))"
      (is "?L \<longleftrightarrow> ?R")
    proof
      assume ?L
      then obtain before kws after where
        eq: "(name, ks) # rest = before @ (n, kws) # after"
        and hit: "\<exists>k \<in> set kws. sublist k g"
        and no: "\<forall>(name', keywords') \<in> set before. \<forall>k \<in> set keywords'. \<not> sublist k g"
        by blast
      show ?R
      proof (cases before)
        case Nil
        with eq hit miss show ?thesis by auto
      next
        case (Cons b bs)
        with eq have "rest = bs @ (n, kws) # after" by simp
        moreover from Cons no have "\<forall>(name', keywords') \<in> set bs. \<forall>k \<in> set keywords'. \<not> sublist k g"
          by auto
        ultimately show ?thesis using hit by blast
      qed
    next
      assume ?R
      then obtain before kws after where
        eq: "rest = before @ (n, kws) # after"
        and hit: "\<exists>k \<in> set kws. sublist k g"
        and no: "\<forall>(name', keywords') \<in> set before. \<forall>k \<in> set keywords'. \<not> sublist k g"
        by blast
      from eq have "(name, ks) # rest = ((name, ks) # before) @ (n, kws) # after"
        by simp
      moreover from no miss
      have "\<forall>(name', keywords') \<in> set ((name, ks) # before). \<forall>k \<in> set keywords'. \<not> sublist k g"
        by auto
      ultimately show ?L using hit by blast
    qed
    with False 2 show ?thesis by simp
  qed
qed

lemma simplify_genre_matched:
  assumes "scan_keywords (strip (lower genre)) kw = Some n" and "n \<noteq> []"
  shows "simplify_genre genre kw = (n, 0)"
  using assms by (simp add: simplify_genre_def)

lemma simplify_genre_unmatched:
  assumes "scan_keywords (strip (lower genre)) kw = None"
  shows "simplify_genre genre kw = (title genre, 1)"
  using assms by (simp add: simplify_genre_def)


text \<open>
  So an entry whose name is not empty and that is the first to match gives that name and
  leaves the unmapped count alone, and a string that no entry matches is title-cased and
  counted as unmapped.
\<close>

text \<open>
  C6.  The first entry that matches decides the result, and an unmatched string is
  title-cased and counted.  The code tests \<open>if matched:\<close> where it means "a match was
  found": a first matching entry named by the empty string is treated as no match.  For
  the taxonomy \<open>{"": ["rock"]}\<close> and the raw genre "rock" the scan selects the name
  \<open>""\<close>, yet the output entry is "Rock" and the unmapped count is 1.
\<close>

theorem empty_name_counts_as_unmapped:
  "scan_keywords (strip (lower ''rock'')) [([], [''rock''])] = Some []
   \<and> map_to_simplified_genres [''rock''] [([], [''rock''])] = ([''Rock''], 1)"
  by code_simp

text \<open>
  C7.  The list that \<open>map_to_simplified_genres\<close> returns is as long as its input, and
  its i-th entry is what one round of the loop makes of the i-th input entry.
\<close>

theorem normalizer_keeps_length_and_order:
  "length (fst (map_to_simplified_genres gs kw)) = length gs
   \<and> (\<forall>i < length gs.
         fst (map_to_simplified_genres gs kw) ! i = fst (simplify_genre (gs ! i) kw))"
  by (simp add: map_to_simplified_genres_eq)

theorem normalizer_keeps_length_and_order_witness:
  "length (fst (map_to_simplified_genres [''Classic Rock'', ''jazz''] example_taxonomy)) = 2
   \<and> fst (map_to_simplified_genres [''Classic Rock'', ''jazz''] example_taxonomy) ! 1
       = fst (simplify_genre ''jazz'' example_taxonomy)"
  using normalizer_keeps_length_and_order [of "[''Classic Rock'', ''jazz'']" example_taxonomy]
  by simp

lemma normalizer_concat:
  "map_to_simplified_genres (concat gss) kw =
     (concat (map (\<lambda>gs. fst (map_to_simplified_genres gs kw)) gss),
      sum_list (map (\<lambda>gs. snd (map_to_simplified_genres gs kw)) gss))"
  by (induction gss) (simp_all add: map_to_simplified_genres_eq)

text \<open>
  C10.  \<open>perform_analysis\<close> calls the Normalizer once, on the flattened list of all
  files' genres.  The list it gets is the concatenation of the lists that one call per
  file gives (so the multiset of entries and the \<open>Counter\<close> built from it are the same),
  and its unmapped count is the sum of the per-file counts.
\<close>

theorem flattened_call_agrees_with_per_file_calls:
  "fst (perform_analysis_genres File files True kw)
     = concat (map (\<lambda>f. fst (map_to_simplified_genres (get_genre File f) kw)) files)
   \<and> mset (fst (perform_analysis_genres File files True kw))
     = mset (concat (map (\<lambda>f. fst (map_to_simplified_genres (get_genre File f) kw)) files))
   \<and> Counter (map PyStr (fst (perform_analysis_genres File files True kw)))
     = Counter (map PyStr
         (concat (map (\<lambda>f. fst (map_to_simplified_genres (get_genre File f) kw)) files)))
   \<and> snd (perform_analysis_genres File files True kw)
     = sum_list (map (\<lambda>f. snd (map_to_simplified_genres (get_genre File f) kw)) files)"
  by (simp add: perform_analysis_genres_def flat_genres_def normalizer_concat comp_def)

section \<open>Properties of the Distribution Calculator\<close>

lemma overlap_loop_eq:
  "overlap_loop File files n = n + length (filter (\<lambda>f. 1 < length (get_genre File f)) files)"
  by (induction files arbitrary: n) (simp_all add: Let_def)

lemma collect_genres_simple:
  "collect_genres File files True kw acc =
     acc @ concat (map (\<lambda>f. [PyList (fst (map_to_simplified_genres (get_genre File f) kw)),
                               PyInt (int (snd (map_to_simplified_genres (get_genre File f) kw)))]) files)"
  by (induction files arbitrary: acc) (simp_all add: Let_def case_prod_beta)

lemma collect_genres_raw:
  "collect_genres File files False kw acc = acc @ map PyStr (flat_genres File files)"
  by (induction files arbitrary: acc) (simp_all add: Let_def flat_genres_def)

lemma Counter_loop_unhashable:
  "\<not> list_all hashable xs \<Longrightarrow> Counter_loop xs c = Inl TypeError"
  by (induction xs arbitrary: c) auto

lemma distribution_simple_raises:
  "files \<noteq> [] \<Longrightarrow> calculate_genre_distribution File files True kw = Inl TypeError"
  by (cases files)
     (simp_all add: calculate_genre_distribution_def count_genres_def Counter_def collect_genres_simple
       Counter_loop_unhashable)

lemma sum_increment: "sum_list (map snd (increment e c)) = sum_list (map snd c) + 1"
  by (induction e c rule: increment.induct) simp_all

lemma Counter_loop_hashable:
  "list_all hashable xs \<Longrightarrow>
     \<exists>c'. Counter_loop xs c = Inr c' \<and> sum_list (map snd c') = sum_list (map snd c) + length xs"
proof (induction xs arbitrary: c)
  case Nil
  then show ?case by simp
next
  case (Cons x xs)
  then have "list_all hashable xs" and hx: "hashable x" by simp_all
  from Cons.IH [OF this(1), of "increment x c"] obtain c' where
    "Counter_loop xs (increment x c) = Inr c'"
    "sum_list (map snd c') = sum_list (map snd (increment x c)) + length xs"
    by blast
  with hx show ?case by (simp add: sum_increment)
qed

lemma sum_genre_percentage:
  "sum_list (map snd (genre_percentage c t)) = (of_nat (sum_list (map snd c)) / of_nat t) * 100"
  by (induction c) (simp_all add: genre_percentage_def case_prod_beta add_divide_distrib distrib_right)


lemma distribution_raw_returns:
  "calculate_genre_distribution File files False kw
     = count_genres (map PyStr (flat_genres File files))"
  by (simp add: calculate_genre_distribution_def collect_genres_raw)

lemma count_genres_empty: "count_genres [] = Inr (Triple [] [] 0)"
  by (simp add: count_genres_def Counter_def)

lemma count_genres_hashable:
  assumes "list_all hashable genres"
  shows "\<exists>c. Counter genres = Inr c \<and> sum_list (map snd c) = length genres
           \<and> count_genres genres =
               Inr (if length genres = 0 then Triple c [] 0
                    else Pair c (genre_percentage c (length genres)))"
proof -
  from Counter_loop_hashable [OF assms, of "[]"] obtain c where
    "Counter genres = Inr c" and "sum_list (map snd c) = length genres"
    by (auto simp: Counter_def)
  then show ?thesis by (simp add: count_genres_def)
qed

lemma raw_distribution_percentages:
  "\<exists>r. calculate_genre_distribution File files False kw = Inr r
      \<and> (0 < length (flat_genres File files) \<longrightarrow>
            sum_list (map snd (returned_percentage r)) = 100)
      \<and> (length (flat_genres File files) = 0 \<longrightarrow> returned_percentage r = [])"
proof -
  have "list_all hashable (map PyStr (flat_genres File files))"
    by (simp add: list_all_iff)
  from count_genres_hashable [OF this] show ?thesis
    by (auto simp: distribution_raw_returns sum_genre_percentage)
qed



text \<open>
  C5.  \<open>calculate_overlap\<close> returns the number of files whose raw genre list, as
  \<open>get_genre\<close> returns it, has more than one entry: a file with at most one entry adds
  nothing, a file with more adds one.  The function takes the files only, and the count
  that \<open>perform_analysis\<close> takes is the same with and without the simplify flag.
\<close>

theorem overlap_counts_files_with_several_genres:
  "calculate_overlap File files = length (filter (\<lambda>f. 1 < length (get_genre File f)) files)
   \<and> (length (get_genre File f) \<le> 1 \<longrightarrow>
        calculate_overlap File (f # files) = calculate_overlap File files)
   \<and> (1 < length (get_genre File f) \<longrightarrow>
        calculate_overlap File (f # files) = calculate_overlap File files + 1)
   \<and> snd (perform_analysis_overlap File files True kw)
       = snd (perform_analysis_overlap File files False kw)"
  by (simp add: calculate_overlap_def overlap_loop_eq perform_analysis_overlap_def)

theorem overlap_counts_files_with_several_genres_witness:
  "length (get_genre example_library ''A.mp3'') \<le> 1
   \<and> 1 < length (get_genre example_library ''D.mp3'')
   \<and> calculate_overlap example_library [''A.mp3'', ''C.ogg''] = calculate_overlap example_library [''C.ogg'']
   \<and> calculate_overlap example_library [''D.mp3'', ''C.ogg''] = calculate_overlap example_library [''C.ogg''] + 1
   \<and> calculate_overlap example_library [''A.mp3'', ''D.mp3'', ''C.ogg'', ''D.mp3''] = 2"
proof -
  have a: "length (get_genre example_library ''A.mp3'') \<le> 1" by code_simp
  have d: "1 < length (get_genre example_library ''D.mp3'')" by code_simp
  have n: "length (filter (\<lambda>f. 1 < length (get_genre example_library f))
             [''A.mp3'', ''D.mp3'', ''C.ogg'', ''D.mp3'']) = 2"
    by code_simp
  from overlap_counts_files_with_several_genres [of example_library "[''C.ogg'']" "''A.mp3''"] a
  have 1: "calculate_overlap example_library [''A.mp3'', ''C.ogg'']
             = calculate_overlap example_library [''C.ogg'']"
    by blast
  from overlap_counts_files_with_several_genres [of example_library "[''C.ogg'']" "''D.mp3''"] d
  have 2: "calculate_overlap example_library [''D.mp3'', ''C.ogg'']
             = calculate_overlap example_library [''C.ogg''] + 1"
    by blast
  from overlap_counts_files_with_several_genres [of example_library "[''A.mp3'', ''D.mp3'', ''C.ogg'', ''D.mp3'']"] n
  have 3: "calculate_overlap example_library [''A.mp3'', ''D.mp3'', ''C.ogg'', ''D.mp3''] = 2"
    by simp
  from a d 1 2 3 show ?thesis by blast
qed


text \<open>
  C1.  With the simplify flag set, line 77 binds \<open>genre_list\<close> to the pair (list, count)
  that \<open>map_to_simplified_genres\<close> returns, and line 78 extends \<open>genres\<close> with the two
  components of that pair, so \<open>Counter(genres)\<close> meets a list and raises TypeError.  On
  the example of the specification no GenreCount is produced.
\<close>

theorem simplified_distribution_of_example_raises:
  "calculate_genre_distribution example_library [''A.mp3'', ''B.flac'', ''C.ogg''] True
     example_taxonomy = Inl TypeError"
  by code_simp

text \<open>
  C2.  When there is at least one genre occurrence the function returns two values
  (line 87), the count and the percentages, where line 84 returns three.
\<close>

theorem raw_distribution_returns_two_values:
  "calculate_genre_distribution example_library [''A.mp3''] False example_taxonomy
     = Inr (Pair [(PyStr ''classic rock'', 1)] [(PyStr ''classic rock'', 100)])"
  by code_simp

section \<open>Properties of the Tag Extractor\<close>






section \<open>Properties of the Discoverer\<close>

lemma files_loop_eq:
  "files_loop r fs acc = acc @ map (join r) (filter is_audio fs)"
  by (induction fs arbitrary: acc) simp_all

lemma walk_loop_eq:
  "walk_loop w acc = acc @ concat (map (\<lambda>(r, fs). map (join r) (filter is_audio fs)) w)"
  by (induction w acc rule: walk_loop.induct) (simp_all add: files_loop_eq)

lemma get_audio_files_eq:
  "get_audio_files directory tree =
     concat (map (\<lambda>(r, fs). map (join r) (filter is_audio fs)) (os_walk directory tree))"
  by (simp add: get_audio_files_def walk_loop_eq)

lemma in_tree_iff_walk:
  "in_tree t d r f \<longleftrightarrow> (\<exists>fs. (r, fs) \<in> set (os_walk t d) \<and> f \<in> set fs)"
proof
  assume "in_tree t d r f"
  then show "\<exists>fs. (r, fs) \<in> set (os_walk t d) \<and> f \<in> set fs"
  proof (induction rule: in_tree.induct)
    case (here f0 files topdir subdirs)
    then show ?case by auto
  next
    case (below name sub subdirs topdir r0 f0 files)
    then obtain fs where "(r0, fs) \<in> set (os_walk (join topdir name) sub)" "f0 \<in> set fs"
      by blast
    with below.hyps(1) show ?case by force
  qed
next
  assume "\<exists>fs. (r, fs) \<in> set (os_walk t d) \<and> f \<in> set fs"
  then show "in_tree t d r f"
  proof (induction t d arbitrary: r f rule: os_walk.induct)
    case (1 topdir files subdirs)
    then obtain fs where mem: "(r, fs) \<in> set (os_walk topdir (Dir files subdirs))" and f: "f \<in> set fs"
      by blast
    from mem consider "(r, fs) = (topdir, files)"
      | name sub where "(name, sub) \<in> set subdirs" "(r, fs) \<in> set (os_walk (join topdir name) sub)"
      by auto
    then show ?case
    proof cases
      case 1
      with f show ?thesis by (auto intro: in_tree.here)
    next
      case 2
      with f "1.IH" [of "(name, sub)" name sub r f] have "in_tree (join topdir name) sub r f"
        by blast
      with 2 show ?thesis by (auto intro: in_tree.below)
    qed
  qed
qed

lemma basename_join:
  assumes "is_name f"
  shows "basename (join r f) = f"
proof -
  from assms have ne: "f \<noteq> []" and ns: "CHR ''/'' \<notin> set f"
    by (simp_all add: is_name_def)
  from ne ns have nopre: "\<not> prefix ''/'' f"
    by (cases f) auto
  from ns have all: "\<forall>c \<in> set f. c \<noteq> CHR ''/''" by blast
  then have tw: "takeWhile (\<lambda>c. c \<noteq> CHR ''/'') (rev f) = rev f"
    by (simp add: takeWhile_eq_all_conv)
  have plain: "basename f = f"
    by (simp add: basename_def tw)
  have slash: "basename (a @ ''/'' @ f) = f" for a
    using all by (simp add: basename_def takeWhile_tail tw)
  show ?thesis
  proof (cases "r = []")
    case True
    with nopre plain show ?thesis by (simp add: join_def)
  next
    case False
    show ?thesis
    proof (cases "suffix ''/'' r")
      case True
      then obtain a where "r = a @ ''/''" by (auto simp: suffix_def)
      with nopre slash [of a] show ?thesis by (simp add: join_def)
    next
      case False
      with \<open>r \<noteq> []\<close> nopre slash [of r] show ?thesis by (simp add: join_def)
    qed
  qed
qed

lemma basename_name: "is_name f \<Longrightarrow> basename f = f"
proof -
  assume "is_name f"
  then have "\<forall>c \<in> set f. c \<noteq> CHR ''/''" by (auto simp: is_name_def)
  then have tw: "takeWhile (\<lambda>c. c \<noteq> CHR ''/'') (rev f) = rev f"
    by (simp add: takeWhile_eq_all_conv)
  show ?thesis by (simp add: basename_def tw)
qed

lemma splitext_ext_join: "is_name f \<Longrightarrow> splitext_ext (join r f) = splitext_ext f"
  by (simp add: splitext_ext_def basename_join basename_name)

lemma is_audio_join: "is_name f \<Longrightarrow> is_audio (join r f) = is_audio f"
  by (simp add: is_audio_def splitext_ext_join)

lemma names_ok_walk:
  "names_ok d \<Longrightarrow> (r, fs) \<in> set (os_walk t d) \<Longrightarrow> f \<in> set fs \<Longrightarrow> is_name f"
proof (induction t d arbitrary: r fs rule: os_walk.induct)
  case (1 topdir files subdirs)
  from "1.prems"(2) consider "(r, fs) = (topdir, files)"
    | name sub where "(name, sub) \<in> set subdirs" "(r, fs) \<in> set (os_walk (join topdir name) sub)"
    by auto
  then show ?case
  proof cases
    case 1
    with "1.prems" show ?thesis by (auto simp: list_all_iff)
  next
    case 2
    with "1.prems"(1) have "names_ok sub" by (auto simp: list_all_iff)
    with 2 "1.IH" [of "(name, sub)" name sub r fs] "1.prems"(3) show ?thesis by blast
  qed
qed

text \<open>
  C9.  The paths that \<open>get_audio_files\<close> returns are exactly the paths
  \<open>os.path.join(root, file)\<close> of the files that the recursive traversal reaches and
  whose extension, lower-cased, is on the list of audio extensions.  When the names in
  the tree are file names (not empty, no slash), every returned path has such an
  extension itself.
\<close>

theorem get_audio_files_exact:
  "set (get_audio_files directory tree)
     = {join r f | r f. in_tree directory tree r f \<and> is_audio f}
   \<and> (names_ok tree \<longrightarrow> (\<forall>p \<in> set (get_audio_files directory tree). is_audio p))"
proof
  show "set (get_audio_files directory tree)
     = {join r f | r f. in_tree directory tree r f \<and> is_audio f}"
    by (auto simp: get_audio_files_eq in_tree_iff_walk)
next
  show "names_ok tree \<longrightarrow> (\<forall>p \<in> set (get_audio_files directory tree). is_audio p)"
  proof (intro impI ballI)
    fix p
    assume ok: "names_ok tree" and "p \<in> set (get_audio_files directory tree)"
    then obtain r fs f where "(r, fs) \<in> set (os_walk directory tree)" "f \<in> set fs"
      "is_audio f" "p = join r f"
      by (auto simp: get_audio_files_eq)
    with ok names_ok_walk [of tree r fs directory f] show "is_audio p"
      by (simp add: is_audio_join)
  qed
qed

theorem get_audio_files_exact_witness:
  "names_ok example_tree
   \<and> get_audio_files ''/music'' example_tree = [''/music/A.MP3'', ''/music/live/b.set.Flac'']
   \<and> is_audio ''/music/A.MP3'' \<and> is_audio ''/music/live/b.set.Flac''
   \<and> (\<exists>r f. in_tree ''/music'' example_tree r f \<and> is_audio f
          \<and> join r f = ''/music/live/b.set.Flac'')"
proof -
  have ok: "names_ok example_tree" by code_simp
  have fs: "get_audio_files ''/music'' example_tree = [''/music/A.MP3'', ''/music/live/b.set.Flac'']"
    by code_simp
  note exact = get_audio_files_exact [of "''/music''" example_tree]
  from exact ok
  have "\<forall>p \<in> set (get_audio_files ''/music'' example_tree). is_audio p" by blast
  with fs have audio: "is_audio ''/music/A.MP3'' \<and> is_audio ''/music/live/b.set.Flac''"
    by simp
  from fs have "''/music/live/b.set.Flac'' \<in> set (get_audio_files ''/music'' example_tree)"
    by simp
  with exact have "''/music/live/b.set.Flac''
      \<in> {join r f | r f. in_tree ''/music'' example_tree r f \<and> is_audio f}"
    by blast
  then have "\<exists>r f. in_tree ''/music'' example_tree r f \<and> is_audio f
      \<and> join r f = ''/music/live/b.set.Flac''"
    by (simp only: mem_Collect_eq) metis
  with ok fs audio show ?thesis by (intro conjI) simp_all
qed

section \<open>Properties of \<open>main\<close>\<close>

text \<open>
  C3.  \<open>main\<close> catches FileNotFoundError only.  A missing file is logged, shown in a
  dialog, and \<open>main\<close> returns \<open>None\<close>; when \<open>json.load\<close> raises on the contents of the
  file, nothing is reported and the exception leaves \<open>main\<close>.
\<close>

theorem unparsable_taxonomy_escapes_main:
  "main smga_main_logic path Unparsable
     = ([Info ''SMGA Plugin initialized.''], Inl JSONDecodeError)
   \<and> main smga_main_logic path Absent
     = ([Info ''SMGA Plugin initialized.'', Error (not_found_message path),
         Critical_dialog (not_found_message path)], Inr None)"
  by (simp add: main_def load_simplified_genres_def)

end
